theory Spec2Isabelle
  imports Complex_Main "HOL-Library.Log_Nat"
begin

section \<open>CarbonAgro: the Crop Analysis page of \<^verbatim>\<open>main.py\<close>\<close>

text \<open>
  The program is a Streamlit script over two pandas tables. The embedding follows the
  script statement by statement; what pandas does inside a call (\<^verbatim>\<open>df[...]\<close>,
  \<^verbatim>\<open>.str.lower()\<close>, \<^verbatim>\<open>.replace\<close>, \<^verbatim>\<open>.dropna\<close>, \<^verbatim>\<open>.mean\<close>,
  \<^verbatim>\<open>.unique\<close>, \<^verbatim>\<open>.drop_duplicates\<close>) is written out as a list function. The
  library is pandas 3 on numpy, with its columns of strings held by Arrow: this decides
  how \<^verbatim>\<open>.str.lower()\<close> maps letters outside ASCII and in which order \<^verbatim>\<open>.mean()\<close>
  adds.
\<close>

subsection \<open>Floating-point values\<close>

text \<open>
  A Python float is a finite number, one of the two infinities, or NaN. The script tests
  for all three (\<^verbatim>\<open>float("inf")\<close>, \<^verbatim>\<open>-float("inf")\<close>, \<^verbatim>\<open>pd.isna\<close>), so they
  are constructors. Finite values are reals. Two arithmetics are kept apart:
  \<^item> the mean of the footprints decides a branch of the script (NaN, \<open>\<le> 0\<close>), so its
    additions and its division are those of IEEE 754 doubles, each result rounded to the
    nearest double (\<open>round_double\<close>, \<open>dadd\<close>, \<open>ddiv\<close>);
  \<^item> the final formula of line 96 decides nothing; there the range of a double is
    modelled (a result beyond the largest double becomes an infinity) and the rounding to
    53 bits is not (\<open>overflow\<close>, \<open>fadd\<close>, \<open>fmul\<close>).
\<close>

datatype pyfloat = Finite real | PosInf | NegInf | NaN

definition max_float :: real where
  "max_float = (2 ^ 53 - 1) * 2 ^ 971"

definition overflow :: "real \<Rightarrow> pyfloat" where
  "overflow r = (if max_float < r then PosInf else if r < - max_float then NegInf else Finite r)"

text \<open>An infinity times a finite number: the sign decides, and \<open>inf * 0\<close> is NaN.\<close>

definition inf_times :: "real \<Rightarrow> pyfloat" where
  "inf_times x = (if 0 < x then PosInf else if x < 0 then NegInf else NaN)"

fun fadd :: "pyfloat \<Rightarrow> pyfloat \<Rightarrow> pyfloat" where
  "fadd NaN _ = NaN"
| "fadd _ NaN = NaN"
| "fadd PosInf NegInf = NaN"
| "fadd NegInf PosInf = NaN"
| "fadd PosInf _ = PosInf"
| "fadd _ PosInf = PosInf"
| "fadd NegInf _ = NegInf"
| "fadd _ NegInf = NegInf"
| "fadd (Finite x) (Finite y) = overflow (x + y)"

fun fmul :: "pyfloat \<Rightarrow> pyfloat \<Rightarrow> pyfloat" where
  "fmul NaN _ = NaN"
| "fmul _ NaN = NaN"
| "fmul PosInf PosInf = PosInf"
| "fmul PosInf NegInf = NegInf"
| "fmul NegInf PosInf = NegInf"
| "fmul NegInf NegInf = PosInf"
| "fmul PosInf (Finite y) = inf_times y"
| "fmul (Finite x) PosInf = inf_times x"
| "fmul NegInf (Finite y) = inf_times (- y)"
| "fmul (Finite x) NegInf = inf_times (- x)"
| "fmul (Finite x) (Finite y) = overflow (x * y)"

text \<open>Python's \<^verbatim>\<open><=\<close> on floats: every comparison with NaN is false.\<close>

fun fle :: "pyfloat \<Rightarrow> pyfloat \<Rightarrow> bool" where
  "fle NaN _ = False"
| "fle _ NaN = False"
| "fle NegInf _ = True"
| "fle _ PosInf = True"
| "fle (Finite x) (Finite y) = (x \<le> y)"
| "fle _ _ = False"

subsection \<open>Doubles\<close>

text \<open>
  Rounding a real to the nearest double, ties to the even significand. A double is
  \<open>n * 2^(e - 52)\<close> with \<open>|n| < 2^53\<close> and \<open>- 1022 \<le> e \<le> 1023\<close>; below \<open>2^(- 1022)\<close>
  the spacing stays \<open>2^(- 1074)\<close> (subnormal numbers, and zero under half of it); from
  \<open>2^1024 - 2^970\<close> on, half a spacing above the largest double, the result is an
  infinity. \<open>exponent a\<close> is the \<open>e\<close> with \<open>2^e \<le> a < 2^(e + 1)\<close>, for \<open>a > 0\<close>.
\<close>

definition round_half_even :: "real \<Rightarrow> int" where
  "round_half_even x =
     (let f = \<lfloor>x\<rfloor>; d = x - of_int f in
      if d < 1 / 2 then f else if 1 / 2 < d then f + 1 else if even f then f else f + 1)"

definition exponent :: "real \<Rightarrow> int" where
  "exponent a = (if 1 \<le> a then bitlen \<lfloor>a\<rfloor> - 1 else - bitlen (\<lceil>1 / a\<rceil> - 1))"

definition round_double :: "real \<Rightarrow> pyfloat" where
  "round_double r =
     (if 2 ^ 1024 - 2 ^ 970 \<le> \<bar>r\<bar> then (if 0 < r then PosInf else NegInf)
      else (let e = (if \<bar>r\<bar> < 2 powi (- 1022) then - 1022 else exponent \<bar>r\<bar>);
                ulp = 2 powi (e - 52)
            in Finite (of_int (round_half_even (r / ulp)) * ulp)))"

fun dadd :: "pyfloat \<Rightarrow> pyfloat \<Rightarrow> pyfloat" where
  "dadd NaN _ = NaN"
| "dadd _ NaN = NaN"
| "dadd PosInf NegInf = NaN"
| "dadd NegInf PosInf = NaN"
| "dadd PosInf _ = PosInf"
| "dadd _ PosInf = PosInf"
| "dadd NegInf _ = NegInf"
| "dadd _ NegInf = NegInf"
| "dadd (Finite x) (Finite y) = round_double (x + y)"

text \<open>Division of a sum by the number of summands (a positive count, itself a double).\<close>

fun ddiv :: "pyfloat \<Rightarrow> nat \<Rightarrow> pyfloat" where
  "ddiv (Finite x) n = round_double (x / real n)"
| "ddiv v n = v"

text \<open>
  The sum of an array as numpy's \<^verbatim>\<open>add.reduce\<close> computes it (\<^verbatim>\<open>pairwise_sum\<close> of
  numpy's \<^verbatim>\<open>loops_utils.h\<close>): fewer than 8 numbers are added one after the other; up
  to 128 numbers go to 8 accumulators, element \<open>i\<close> to accumulator \<open>i mod 8\<close>, which are
  then added in pairs, and the up to 7 numbers left over are added at the end; a longer
  array is cut in two near its middle, at a multiple of 8.
\<close>

function accumulate :: "pyfloat list \<Rightarrow> pyfloat list \<Rightarrow> pyfloat list" where
  "accumulate r a =
     (if length a < 8 then r else accumulate (map2 dadd r (take 8 a)) (drop 8 a))"
  by pat_completeness auto
termination
  by (relation "measure (\<lambda>(r, a). length a)") auto

declare accumulate.simps [simp del]

definition block_sum :: "pyfloat list \<Rightarrow> pyfloat" where
  "block_sum a =
     (let n = length a;
          m = n - n mod 8;
          r = accumulate (take 8 a) (take (m - 8) (drop 8 a));
          res = dadd (dadd (dadd (r ! 0) (r ! 1)) (dadd (r ! 2) (r ! 3)))
                     (dadd (dadd (r ! 4) (r ! 5)) (dadd (r ! 6) (r ! 7)))
      in foldl dadd res (drop m a))"

function pairwise_sum :: "pyfloat list \<Rightarrow> pyfloat" where
  "pairwise_sum a =
     (if length a < 8 then foldl dadd (Finite 0) a
      else if length a \<le> 128 then block_sum a
      else dadd (pairwise_sum (take (length a div 2 - length a div 2 mod 8) a))
                (pairwise_sum (drop (length a div 2 - length a div 2 mod 8) a)))"
  by pat_completeness auto
termination
  by (relation "measure length") auto

declare pairwise_sum.simps [simp del]

subsection \<open>Strings\<close>

text \<open>
  A string is its UTF-8 bytes. \<^verbatim>\<open>str.lower\<close> maps \<open>A\<close>..\<open>Z\<close> to \<open>a\<close>..\<open>z\<close>;
  \<^verbatim>\<open>strip()\<close> removes the characters for which \<^verbatim>\<open>str.isspace\<close> holds (codes 9 to
  13, 28 to 32) from both ends. Outside ASCII one letter is modelled, the capital I with
  a dot above (U+0130, bytes \<open>C4 B0\<close>), because the two lower-casings of line 77 differ
  on it: Python's \<^verbatim>\<open>str.lower\<close> follows Unicode's full case mapping and gives \<open>i\<close> and
  a combining dot (U+0069 U+0307, bytes \<open>69 CC 87\<close>); \<^verbatim>\<open>.str.lower()\<close> of a pandas
  column of strings is Arrow's \<^verbatim>\<open>utf8_lower\<close>, which maps code point by code point and
  gives \<open>i\<close> alone. Every other byte outside ASCII is kept as it is by both.
\<close>

definition lower_char :: "char \<Rightarrow> char" where
  "lower_char c =
     (let n = (of_char c :: nat) in if 65 \<le> n \<and> n \<le> 90 then char_of (n + 32) else c)"

fun lower :: "string \<Rightarrow> string" where
  "lower [] = []"
| "lower [c] = [lower_char c]"
| "lower (c # d # s) =
     (if c = CHR 0xC4 \<and> d = CHR 0xB0 then CHR ''i'' # CHR 0xCC # CHR 0x87 # lower s
      else lower_char c # lower (d # s))"

fun pandas_lower :: "string \<Rightarrow> string" where
  "pandas_lower [] = []"
| "pandas_lower [c] = [lower_char c]"
| "pandas_lower (c # d # s) =
     (if c = CHR 0xC4 \<and> d = CHR 0xB0 then CHR ''i'' # pandas_lower s
      else lower_char c # pandas_lower (d # s))"

definition isspace :: "char \<Rightarrow> bool" where
  "isspace c = (let n = (of_char c :: nat) in (9 \<le> n \<and> n \<le> 13) \<or> (28 \<le> n \<and> n \<le> 32))"

definition strip :: "string \<Rightarrow> string" where
  "strip s = rev (dropWhile isspace (rev (dropWhile isspace s)))"

subsection \<open>Tables\<close>

text \<open>
  A cell of a table read by \<^verbatim>\<open>pd.read_csv\<close> is a string or a number; a missing cell
  is NaN. A DataFrame is its column labels and its rows; a row shorter than the header
  reads as missing in the columns it lacks, as \<^verbatim>\<open>read_csv\<close> fills it.
\<close>

datatype cell = Str string | Num pyfloat

record dataframe =
  columns :: "string list"
  rows :: "cell list list"

datatype error = KeyError string | AttributeError | ValueError | TypeError

definition cell_at :: "cell list \<Rightarrow> nat \<Rightarrow> cell" where
  "cell_at r i = (if i < length r then r ! i else Num NaN)"

text \<open>
  \<^verbatim>\<open>df[name]\<close>: a KeyError when no column has the label, a Series when exactly one
  has, and a DataFrame when several have (two labels can coincide once they are
  lower-cased and stripped).
\<close>

datatype selection = Missing | Series "cell list" | Frame

definition positions :: "string list \<Rightarrow> string \<Rightarrow> nat list" where
  "positions cs name = filter (\<lambda>i. cs ! i = name) [0..<length cs]"

definition getitem :: "dataframe \<Rightarrow> string \<Rightarrow> selection" where
  "getitem df name =
     (case positions (columns df) name of
        [] \<Rightarrow> Missing
      | [i] \<Rightarrow> Series (map (\<lambda>r. cell_at r i) (rows df))
      | _ \<Rightarrow> Frame)"

text \<open>
  The dtype of a column: numeric when it has a row and every cell is a number (an
  all-missing column is float64), object otherwise. The \<^verbatim>\<open>.str\<close> accessor raises
  AttributeError on a numeric column.
\<close>

fun is_num :: "cell \<Rightarrow> bool" where
  "is_num (Num _) = True"
| "is_num (Str _) = False"

definition numeric_dtype :: "cell list \<Rightarrow> bool" where
  "numeric_dtype s = (s \<noteq> [] \<and> list_all is_num s)"

text \<open>
  \<^verbatim>\<open>.unique()\<close> and \<^verbatim>\<open>.drop_duplicates()\<close>: the first occurrence of every value, in
  order of appearance.
\<close>

fun drop_duplicates :: "'a list \<Rightarrow> 'a list" where
  "drop_duplicates [] = []"
| "drop_duplicates (x # xs) = x # drop_duplicates (filter (\<lambda>y. y \<noteq> x) xs)"

subsection \<open>Loading (lines 19 to 27)\<close>

text \<open>
  \<^verbatim>\<open>load_data\<close> reads the two files with \<^verbatim>\<open>pd.read_csv\<close> and renames the columns.
  The two parsed tables are the arguments here; the renaming is
  \<^verbatim>\<open>[c.lower().strip() for c in df.columns]\<close>.
\<close>

definition standardize :: "dataframe \<Rightarrow> dataframe" where
  "standardize t = t\<lparr>columns := map (\<lambda>c. strip (lower c)) (columns t)\<rparr>"

definition load_data :: "dataframe \<Rightarrow> dataframe \<Rightarrow> dataframe \<times> dataframe" where
  "load_data yield_csv measures_csv = (standardize yield_csv, standardize measures_csv)"

subsection \<open>The crop filter (lines 77 and 105)\<close>

text \<open>
  \<^verbatim>\<open>t[t["crop"].str.lower() == selected_crop.lower()]\<close>. The selected crop is what
  \<^verbatim>\<open>st.selectbox\<close> returned: an element of the crop column (a string, or a float when
  the cell was missing or numeric), or None when the list of options is empty. Only a
  string has \<^verbatim>\<open>.lower()\<close>. The cells are lower-cased by pandas (\<open>pandas_lower\<close>), the
  selected crop by Python (\<open>lower\<close>).
\<close>

fun matches :: "string \<Rightarrow> cell \<Rightarrow> bool" where
  "matches wanted (Str s) = (pandas_lower s = wanted)"
| "matches wanted (Num _) = False"

definition filter_crop :: "dataframe \<Rightarrow> cell option \<Rightarrow> error + dataframe" where
  "filter_crop t selected_crop =
     (case getitem t ''crop'' of
        Missing \<Rightarrow> Inl (KeyError ''crop'')
      | Frame \<Rightarrow> Inl AttributeError
      | Series crop \<Rightarrow>
          if numeric_dtype crop then Inl AttributeError
          else (case selected_crop of
                  Some (Str s) \<Rightarrow>
                    Inr (t\<lparr>rows := map snd (filter (\<lambda>(c, r). matches (lower s) c)
                                                    (zip crop (rows t)))\<rparr>)
                | _ \<Rightarrow> Inl AttributeError))"

definition empty :: "dataframe \<Rightarrow> bool" where
  "empty t = (rows t = [] \<or> columns t = [])"

subsection \<open>The base factor (lines 84 to 89)\<close>

definition replace_inf :: "cell list \<Rightarrow> cell list" where
  "replace_inf s = map (\<lambda>c. if c = Num PosInf \<or> c = Num NegInf then Num NaN else c) s"

definition dropna :: "cell list \<Rightarrow> cell list" where
  "dropna s = filter (\<lambda>c. c \<noteq> Num NaN) s"

fun the_num :: "cell \<Rightarrow> pyfloat" where
  "the_num (Num v) = v"
| "the_num (Str _) = NaN"

text \<open>
  \<^verbatim>\<open>.mean()\<close> (missing values skipped): a TypeError on text, NaN on an empty Series,
  else numpy's sum of the doubles divided by their count. \<^verbatim>\<open>read_csv\<close> gives a column
  one type: a column with a cell that is not a number is a column of strings, in which
  every cell is a \<open>Str\<close> (\<open>Str ''2.0''\<close>, not \<open>Num (Finite 2)\<close>) or missing. The model
  reads the type off the cells that \<^verbatim>\<open>.mean()\<close> receives, so one case is outside it: a
  column of strings whose cells for the crop are all missing, where pandas raises the
  TypeError and the model finds nothing to average.
\<close>

definition mean :: "cell list \<Rightarrow> error + pyfloat" where
  "mean s =
     (let vs = dropna s in
      if \<not> list_all is_num vs then Inl TypeError
      else if vs = [] then Inr NaN
      else Inr (ddiv (pairwise_sum (map the_num vs)) (length vs)))"

definition isna :: "pyfloat \<Rightarrow> bool" where
  "isna v = (v = NaN)"

definition base_factor :: "dataframe \<Rightarrow> error + pyfloat" where
  "base_factor crop_data =
     (case getitem crop_data ''carbon_footprint'' of
        Missing \<Rightarrow> Inr (Finite 1)
      | Frame \<Rightarrow> Inl ValueError
      | Series cf \<Rightarrow>
          (case mean (dropna (replace_inf cf)) of
             Inl e \<Rightarrow> Inl e
           | Inr m \<Rightarrow> Inr (if isna m \<or> fle m (Finite 0) then Finite 1 else m)))"

subsection \<open>The footprint (lines 91 to 96)\<close>

definition fertilizer_factor :: pyfloat where
  "fertilizer_factor = Finite (2 / 1000)"

definition pesticide_factor :: pyfloat where
  "pesticide_factor = Finite (1 / 1000)"

definition predicted_cf :: "pyfloat \<Rightarrow> real \<Rightarrow> real \<Rightarrow> real \<Rightarrow> pyfloat" where
  "predicted_cf bf area fertilizer pesticide =
     fadd (fadd (fmul (Finite area) bf) (fmul (Finite fertilizer) fertilizer_factor))
          (fmul (Finite pesticide) pesticide_factor)"

subsection \<open>The measures (lines 105 to 108)\<close>

definition unique_measures :: "dataframe \<Rightarrow> error + cell list" where
  "unique_measures crop_measures =
     (case getitem crop_measures ''necessary_measures'' of
        Missing \<Rightarrow> Inl (KeyError ''necessary_measures'')
      | Frame \<Rightarrow> Inl AttributeError
      | Series ms \<Rightarrow> Inr (drop_duplicates ms))"

subsection \<open>The page (lines 66 to 112)\<close>

text \<open>
  What the page displays, in order, and the exception that ended the run, if any. The
  numbers are kept as values: their formatting into text (\<^verbatim>\<open>:.2f\<close> for the
  footprint) is not modelled.
\<close>

datatype shown =
    Subheader_analysis string
  | Write_area real
  | Write_fertilizer real
  | Write_pesticide real
  | Success_footprint pyfloat
  | Subheader_measures
  | Write_measure cell
  | Warning_no_measures

definition crop_list :: "dataframe \<Rightarrow> error + cell list" where
  "crop_list df =
     (case getitem df ''crop'' of
        Missing \<Rightarrow> Inl (KeyError ''crop'')
      | Frame \<Rightarrow> Inl AttributeError
      | Series crop \<Rightarrow> Inr (drop_duplicates crop))"

definition show_measures :: "dataframe \<Rightarrow> cell option \<Rightarrow> shown list \<times> error option" where
  "show_measures measures_df selected_crop =
     (case filter_crop measures_df selected_crop of
        Inl e \<Rightarrow> ([], Some e)
      | Inr crop_measures \<Rightarrow>
          if \<not> empty crop_measures then
            (case unique_measures crop_measures of
               Inl e \<Rightarrow> ([Subheader_measures], Some e)
             | Inr ms \<Rightarrow> (Subheader_measures # map Write_measure ms, None))
          else ([Warning_no_measures], None))"

definition crop_name :: "cell option \<Rightarrow> string" where
  "crop_name selected_crop = (case selected_crop of Some (Str s) \<Rightarrow> s | _ \<Rightarrow> [])"

definition crop_analysis ::
  "dataframe \<Rightarrow> dataframe \<Rightarrow> cell option \<Rightarrow> real \<Rightarrow> real \<Rightarrow> real \<Rightarrow> shown list \<times> error option"
where
  "crop_analysis df measures_df selected_crop area fertilizer pesticide =
     (case crop_list df of
        Inl e \<Rightarrow> ([], Some e)
      | Inr _ \<Rightarrow>
          if 0 < area then
            (case filter_crop df selected_crop of
               Inl e \<Rightarrow> ([], Some e)
             | Inr crop_data \<Rightarrow>
                 if \<not> empty crop_data then
                   (case base_factor crop_data of
                      Inl e \<Rightarrow> ([Subheader_analysis (crop_name selected_crop)], Some e)
                    | Inr bf \<Rightarrow>
                        (let results =
                               [Subheader_analysis (crop_name selected_crop),
                                Write_area area, Write_fertilizer fertilizer,
                                Write_pesticide pesticide,
                                Success_footprint (predicted_cf bf area fertilizer pesticide)];
                             (ms, err) = show_measures measures_df selected_crop
                         in (results @ ms, err)))
                 else ([], None))
          else ([], None))"

subsection \<open>The two computations the page is made of\<close>

text \<open>
  The footprint is the value of lines 77 to 96 and the list of measures that of lines 105
  to 111; \<open>crop_analysis\<close> runs the first under its guard \<^verbatim>\<open>area > 0\<close> and the second
  after it. An empty filter gives no footprint (None) and no measures (the empty list).
\<close>

definition estimate ::
  "dataframe \<Rightarrow> cell option \<Rightarrow> real \<Rightarrow> real \<Rightarrow> real \<Rightarrow> error + pyfloat option"
where
  "estimate df selected_crop area fertilizer pesticide =
     (case filter_crop df selected_crop of
        Inl e \<Rightarrow> Inl e
      | Inr crop_data \<Rightarrow>
          if \<not> empty crop_data then
            (case base_factor crop_data of
               Inl e \<Rightarrow> Inl e
             | Inr bf \<Rightarrow> Inr (Some (predicted_cf bf area fertilizer pesticide)))
          else Inr None)"

definition recommendations :: "dataframe \<Rightarrow> cell option \<Rightarrow> error + cell list" where
  "recommendations measures_df selected_crop =
     (case filter_crop measures_df selected_crop of
        Inl e \<Rightarrow> Inl e
      | Inr crop_measures \<Rightarrow>
          if \<not> empty crop_measures then unique_measures crop_measures else Inr [])"

subsection \<open>Notions the properties are stated with\<close>

text \<open>
  What \<^verbatim>\<open>st.selectbox("Select a Crop", crop_list)\<close> can return: an element of
  \<open>crop_list\<close>, or None when the list is empty.
\<close>

definition selectable :: "dataframe \<Rightarrow> cell option \<Rightarrow> bool" where
  "selectable df selected_crop =
     (case crop_list df of
        Inl _ \<Rightarrow> False
      | Inr options \<Rightarrow>
          (case selected_crop of None \<Rightarrow> options = [] | Some c \<Rightarrow> c \<in> set options))"

text \<open>A string of ASCII characters.\<close>

definition ascii :: "string \<Rightarrow> bool" where
  "ascii s = list_all (\<lambda>c. (of_char c :: nat) < 128) s"

text \<open>A string in lower case: no capital letter and no U+0130.\<close>

fun lowered :: "string \<Rightarrow> bool" where
  "lowered [] = True"
| "lowered [c] = (lower_char c = c)"
| "lowered (c # d # s) =
     (lower_char c = c \<and> \<not> (c = CHR 0xC4 \<and> d = CHR 0xB0) \<and> lowered (d # s))"

text \<open>Two strings that differ only in letter case, position by position.\<close>

definition differ_only_in_case :: "string \<Rightarrow> string \<Rightarrow> bool" where
  "differ_only_in_case a b =
     list_all2 (\<lambda>c d. c = d \<or> lower_char c = d \<or> lower_char d = c) a b"


text \<open>
  The finite numbers of a column, their arithmetic mean over the reals, and their mean as
  \<^verbatim>\<open>.mean()\<close> computes it in doubles.
\<close>

fun finite_values :: "cell list \<Rightarrow> real list" where
  "finite_values [] = []"
| "finite_values (Num (Finite r) # s) = r # finite_values s"
| "finite_values (_ # s) = finite_values s"


definition computed_mean :: "real list \<Rightarrow> pyfloat" where
  "computed_mean vs = ddiv (pairwise_sum (map Finite vs)) (length vs)"

fun positive :: "pyfloat \<Rightarrow> bool" where
  "positive (Finite r) = (0 < r)"
| "positive PosInf = True"
| "positive _ = False"


definition nonneg :: "pyfloat \<Rightarrow> bool" where
  "nonneg v = fle (Finite 0) v"

subsection \<open>Example tables\<close>

definition yield_rice :: dataframe where
  "yield_rice = \<lparr>columns = [''crop'', ''carbon_footprint''],
                 rows = [[Str ''Rice'', Num (Finite 2)]]\<rparr>"

definition measures_wheat :: dataframe where
  "measures_wheat = \<lparr>columns = [''crop'', ''necessary_measures''],
     rows = [[Str ''Wheat'', Str ''Use drip irrigation''],
             [Str ''Wheat'', Str ''Use drip irrigation''],
             [Str ''Wheat'', Str ''Rotate crops'']]\<rparr>"

text \<open>
  Two rows of one crop whose footprints, the double \<open>2^1023\<close> each (written
  \<^verbatim>\<open>8.98846567431158e307\<close> in the file), add up beyond the largest double.
\<close>

definition yield_huge :: dataframe where
  "yield_huge = \<lparr>columns = [''crop'', ''carbon_footprint''],
                 rows = [[Str ''Rice'', Num (Finite (2 ^ 1023))],
                         [Str ''Rice'', Num (Finite (2 ^ 1023))]]\<rparr>"



text \<open>A crop whose name begins with the capital I with a dot above, U+0130.\<close>

definition istanbul :: string where
  "istanbul = CHR 0xC4 # CHR 0xB0 # ''stanbul''"

definition yield_istanbul :: dataframe where
  "yield_istanbul = \<lparr>columns = [''crop'', ''carbon_footprint''],
                     rows = [[Str istanbul, Num (Finite 2)]]\<rparr>"


text \<open>A table whose first row has no crop: the cell is missing.\<close>

definition yield_gap :: dataframe where
  "yield_gap = \<lparr>columns = [''crop'', ''carbon_footprint''],
                rows = [[Num NaN, Num (Finite 5)],
                        [Str ''Rice'', Num (Finite 2)]]\<rparr>"

text \<open>A header as a file may have it, before the renaming.\<close>

definition yield_raw :: dataframe where
  "yield_raw = \<lparr>columns = ['' Crop'', ''Carbon_Footprint ''],
                rows = [[Str ''Rice'', Num (Finite 2)]]\<rparr>"

section \<open>Properties\<close>

subsection \<open>Evaluation\<close>

lemmas string_eval = lower_char_def isspace_def strip_def char_of_def bit_Suc_0_iff

lemmas table_eval = getitem_def positions_def cell_at_def upt_rec numeric_dtype_def empty_def
  filter_crop_def crop_list_def unique_measures_def

lemmas float_eval = overflow_def max_float_def inf_times_def isna_def

lemmas factor_eval = base_factor_def mean_def dropna_def replace_inf_def predicted_cf_def
  fertilizer_factor_def pesticide_factor_def

subsection \<open>Rounding to a double\<close>

lemma exponent_bounds:
  assumes "0 < a"
  shows "2 powi (exponent a) \<le> a \<and> a < 2 powi (exponent a + 1)"
proof (cases "1 \<le> a")
  case True
  let ?n = "\<lfloor>a\<rfloor>"
  from True have n: "0 < ?n" by simp
  from bitlen_bounds [OF n] have b: "2 ^ nat (bitlen ?n - 1) \<le> ?n" "?n < 2 ^ nat (bitlen ?n)"
    by simp_all
  have k: "1 \<le> bitlen ?n" using n by (simp add: bitlen_alt_def)
  have p1: "(2::real) powi (bitlen ?n - 1) = 2 ^ nat (bitlen ?n - 1)"
    using k by (simp add: power_int_def)
  have l1: "(2::real) ^ nat (bitlen ?n - 1) \<le> of_int ?n"
    using b(1) by (metis of_int_le_iff of_int_numeral of_int_power)
  have l2: "of_int ?n \<le> a" by simp
  have p2: "(2::real) powi (bitlen ?n - 1 + 1) = 2 ^ nat (bitlen ?n)"
    using k by (simp add: power_int_def)
  have u1: "a < of_int (?n + 1)" by linarith
  have u2: "of_int (?n + 1) \<le> (2::real) ^ nat (bitlen ?n)"
  proof -
    from b(2) have "?n + 1 \<le> 2 ^ nat (bitlen ?n)" by simp
    then show ?thesis by (metis of_int_le_iff of_int_numeral of_int_power)
  qed
  have e: "exponent a = bitlen ?n - 1" using True by (simp add: exponent_def)
  from l1 l2 have "(2::real) powi (exponent a) \<le> a" unfolding e p1 by linarith
  moreover from u1 u2 have "a < 2 powi (exponent a + 1)" unfolding e p2 by linarith
  ultimately show ?thesis ..
next
  case False
  let ?m = "\<lceil>1 / a\<rceil> - 1"
  from False assms have q: "1 < 1 / a" by simp
  then have m: "0 < ?m" by linarith
  from bitlen_bounds [OF m] have b: "2 ^ nat (bitlen ?m - 1) \<le> ?m" "?m < 2 ^ nat (bitlen ?m)"
    by simp_all
  have k: "1 \<le> bitlen ?m" using m by (simp add: bitlen_alt_def)
  have lo: "(2::real) ^ nat (bitlen ?m - 1) < 1 / a"
  proof -
    have "(2::real) ^ nat (bitlen ?m - 1) \<le> of_int ?m"
      using b(1) by (metis of_int_le_iff of_int_numeral of_int_power)
    moreover have "of_int ?m < 1 / a" by linarith
    ultimately show ?thesis by linarith
  qed
  have hi: "1 / a \<le> (2::real) ^ nat (bitlen ?m)"
  proof -
    from b(2) have "?m + 1 \<le> 2 ^ nat (bitlen ?m)" by simp
    then have "of_int (?m + 1) \<le> (2::real) ^ nat (bitlen ?m)"
      by (metis of_int_le_iff of_int_numeral of_int_power)
    moreover have "1 / a \<le> of_int (?m + 1)" by simp
    ultimately show ?thesis by linarith
  qed
  have p1: "(2::real) powi (- bitlen ?m) = 1 / 2 ^ nat (bitlen ?m)"
    using k by (simp add: power_int_def field_simps)
  have p2: "(2::real) powi (- bitlen ?m + 1) = 1 / 2 ^ nat (bitlen ?m - 1)"
    using k by (simp add: power_int_def field_simps nat_diff_distrib)
  have e: "exponent a = - bitlen ?m" using False by (simp add: exponent_def)
  have "1 / 2 ^ nat (bitlen ?m) \<le> a"
    using hi assms by (simp add: field_simps)
  then have "(2::real) powi (exponent a) \<le> a" unfolding e p1 .
  moreover have "a < 1 / 2 ^ nat (bitlen ?m - 1)"
    using lo assms by (simp add: field_simps)
  then have "a < 2 powi (exponent a + 1)" unfolding e p2 .
  ultimately show ?thesis ..
qed

lemma exponent_eqI:
  assumes "2 powi e \<le> a" and "a < 2 powi (e + 1)"
  shows "exponent a = e"
proof -
  have pos: "0 < a" using assms(1) by (smt (verit) zero_less_power_int)
  note b = exponent_bounds [OF pos]
  have "(2::real) powi e < 2 powi (exponent a + 1)" using assms(1) b by linarith
  then have 1: "e < exponent a + 1"
    using power_int_increasing [of "exponent a + 1" e "2::real"] by (cases "e < exponent a + 1") auto
  have "(2::real) powi exponent a < 2 powi (e + 1)" using assms(2) b by linarith
  then have 2: "exponent a < e + 1"
    using power_int_increasing [of "e + 1" "exponent a" "2::real"] by (cases "exponent a < e + 1") auto
  from 1 2 show ?thesis by linarith
qed


lemma round_double_normal:
  assumes "\<bar>r\<bar> < 2 ^ 1024 - 2 ^ 970" and "2 powi e \<le> \<bar>r\<bar>" and "\<bar>r\<bar> < 2 powi (e + 1)"
    and "- 1022 \<le> e"
  shows "round_double r
           = Finite (of_int (round_half_even (r / 2 powi (e - 52))) * 2 powi (e - 52))"
proof -
  have x: "exponent \<bar>r\<bar> = e" using assms(2,3) by (rule exponent_eqI)
  have "(2::real) powi (- 1022) \<le> 2 powi e"
    using assms(4) by (intro power_int_increasing) simp_all
  with assms(2) have "\<not> \<bar>r\<bar> < 2 powi (- 1022)" by linarith
  with assms(1) show ?thesis by (simp add: round_double_def x Let_def)
qed

lemma round_double_subnormal:
  assumes "\<bar>r\<bar> < 2 powi (- 1022)"
  shows "round_double r = Finite (of_int (round_half_even (r * 2 ^ 1074)) / 2 ^ 1074)"
proof -
  have "(2::real) powi (- 1022) < 2 ^ 1024 - 2 ^ 970" by (simp add: power_int_minus)
  with assms have "\<not> 2 ^ 1024 - 2 ^ 970 \<le> \<bar>r\<bar>" by linarith
  with assms show ?thesis
    by (simp add: round_double_def Let_def power_int_minus field_simps)
qed

lemma round_double_PosInf: "2 ^ 1024 - 2 ^ 970 \<le> r \<Longrightarrow> round_double r = PosInf"
  by (simp add: round_double_def)

lemma round_double_NegInf: "r \<le> - (2 ^ 1024 - 2 ^ 970) \<Longrightarrow> round_double r = NegInf"
  by (simp add: round_double_def)

lemma pairwise_sum_short: "length a < 8 \<Longrightarrow> pairwise_sum a = foldl dadd (Finite 0) a"
  by (simp add: pairwise_sum.simps)



lemmas double_eval = round_double_subnormal round_double_PosInf round_double_NegInf
  round_double_normal [where e = 1] round_double_normal [where e = 2]
  round_double_normal [where e = 4] round_double_normal [where e = 1023]
  round_half_even_def power_int_minus pairwise_sum_short computed_mean_def

lemma computed_mean_2: "computed_mean [2] = Finite 2"
  by (simp add: double_eval)


lemma computed_mean_huge: "computed_mean [2 ^ 1023, 2 ^ 1023] = PosInf"
  by (simp add: double_eval)



subsection \<open>Letter case\<close>

lemma of_char_lower_char:
  "(of_char (lower_char c) :: nat)
     = (if 65 \<le> (of_char c :: nat) \<and> (of_char c :: nat) \<le> 90 then of_char c + 32 else of_char c)"
  by (auto simp: lower_char_def Let_def of_char_of)

lemma lower_char_idem: "lower_char (lower_char c) = lower_char c"
  by (rule of_char_eqI [where ?'a = nat]) (simp add: of_char_lower_char)

lemma lower_char_C4: "lower_char c = CHR 0xC4 \<longleftrightarrow> c = CHR 0xC4"
proof
  assume "lower_char c = CHR 0xC4"
  then have "(of_char (lower_char c) :: nat) = 196" by simp
  then have "(of_char c :: nat) = 196" by (simp add: of_char_lower_char split: if_splits)
  then show "c = CHR 0xC4" by (intro of_char_eqI [where ?'a = nat]) simp
next
  assume "c = CHR 0xC4"
  then show "lower_char c = CHR 0xC4" by (simp add: lower_char_def)
qed

lemma lower_char_B0: "lower_char c = CHR 0xB0 \<longleftrightarrow> c = CHR 0xB0"
proof
  assume "lower_char c = CHR 0xB0"
  then have "(of_char (lower_char c) :: nat) = 176" by simp
  then have "(of_char c :: nat) = 176" by (simp add: of_char_lower_char split: if_splits)
  then show "c = CHR 0xB0" by (intro of_char_eqI [where ?'a = nat]) simp
next
  assume "c = CHR 0xB0"
  then show "lower_char c = CHR 0xB0" by (simp add: lower_char_def)
qed

lemma lower_other:
  "\<not> (c = CHR 0xC4 \<and> d = CHR 0xB0) \<Longrightarrow> lower (c # d # s) = lower_char c # lower (d # s)"
  by (simp only: lower.simps if_not_P if_False)

lemma lowered_Cons: "lower_char c = c \<Longrightarrow> c \<noteq> CHR 0xC4 \<Longrightarrow> lowered t \<Longrightarrow> lowered (c # t)"
  by (cases t) simp_all

lemma lower_head: "d \<noteq> CHR 0xB0 \<Longrightarrow> \<exists>x t. lower (d # s) = x # t \<and> x \<noteq> CHR 0xB0"
  by (cases s) (auto simp: lower_char_B0)

lemma lowered_lower: "lowered (lower s)"
proof (induction s rule: lower.induct)
  case 1
  show ?case by simp
next
  case (2 c)
  show ?case by (simp add: lower_char_idem)
next
  case (3 c d s)
  show ?case
  proof (cases "c = CHR 0xC4 \<and> d = CHR 0xB0")
    case True
    with 3 have a: "lowered (lower s)" by simp
    have "lowered (CHR 0x87 # lower s)"
      using a by (simp add: lowered_Cons lower_char_def)
    then have "lowered (CHR 0xCC # CHR 0x87 # lower s)"
      by (simp add: lower_char_def)
    then have "lowered (CHR ''i'' # CHR 0xCC # CHR 0x87 # lower s)"
      by (simp add: lower_char_def)
    with True show ?thesis by simp
  next
    case False
    with 3 have ih: "lowered (lower (d # s))" by simp
    show ?thesis
    proof (cases "c = CHR 0xC4")
      case c: True
      with False have "d \<noteq> CHR 0xB0" by simp
      from lower_head [OF this, of s] obtain x t where
        x: "lower (d # s) = x # t" "x \<noteq> CHR 0xB0" by blast
      with ih c have "lowered (lower_char c # lower (d # s))" by (simp add: lower_char_def)
      then show ?thesis unfolding lower_other [OF False] .
    next
      case c: False
      then have "lower_char c \<noteq> CHR 0xC4" by (simp add: lower_char_C4)
      with ih have "lowered (lower_char c # lower (d # s))"
        by (simp add: lowered_Cons lower_char_idem)
      then show ?thesis unfolding lower_other [OF False] .
    qed
  qed
qed

lemma lowered_fix: "lowered t \<Longrightarrow> lower t = t"
  by (induction t rule: lower.induct) auto

lemma lowered_tl: "lowered (c # t) \<Longrightarrow> lowered t"
  by (cases t) simp_all

lemma lowered_dropWhile: "lowered t \<Longrightarrow> lowered (dropWhile P t)"
  by (induction t) (auto dest: lowered_tl)

lemma lowered_take: "lowered t \<Longrightarrow> lowered (take k t)"
proof (induction t arbitrary: k rule: lowered.induct)
  case 1
  show ?case by simp
next
  case (2 c)
  then show ?case by (cases k) simp_all
next
  case (3 c d s)
  show ?case
  proof (cases k)
    case 0
    then show ?thesis by simp
  next
    case (Suc j)
    from 3 have "lowered (take j (d # s))" by simp
    with 3(2) Suc show ?thesis
      by (cases j) simp_all
  qed
qed

lemma rev_dropWhile_rev_take: "\<exists>k. rev (dropWhile P (rev t)) = take k t"
proof -
  obtain k where "dropWhile P (rev t) = drop k (rev t)"
    by (metis dropWhile_eq_drop)
  then have "rev (dropWhile P (rev t)) = take (length t - k) t"
    by (simp add: rev_drop)
  then show ?thesis ..
qed

lemma lowered_strip: "lowered t \<Longrightarrow> lowered (strip t)"
proof -
  assume "lowered t"
  then have l: "lowered (dropWhile isspace t)" by (rule lowered_dropWhile)
  from rev_dropWhile_rev_take [of isspace "dropWhile isspace t"] obtain k where
    "strip t = take k (dropWhile isspace t)" unfolding strip_def ..
  with l show ?thesis by (simp add: lowered_take)
qed

lemma lower_strip_lower: "lower (strip (lower s)) = strip (lower s)"
  by (intro lowered_fix lowered_strip lowered_lower)

lemma ascii_lower: "ascii s \<Longrightarrow> pandas_lower s = lower s"
proof (induction s rule: lower.induct)
  case (3 c d s)
  then have "c \<noteq> CHR 0xC4" by (auto simp: ascii_def)
  with 3 show ?case by (simp add: ascii_def)
qed simp_all

lemma differ_only_in_case_lower: "differ_only_in_case a b \<Longrightarrow> lower a = lower b"
proof (induction a arbitrary: b rule: lower.induct)
  case 1
  then show ?case by (simp add: differ_only_in_case_def)
next
  case (2 c)
  then obtain d where b: "b = [d]" and r: "c = d \<or> lower_char c = d \<or> lower_char d = c"
    by (auto simp: differ_only_in_case_def list_all2_Cons1)
  from r have "lower_char c = lower_char d" by (auto simp: lower_char_idem)
  with b show ?case by simp
next
  case (3 c d s)
  from 3(3) obtain c' d' s' where b: "b = c' # d' # s'"
    and rc: "c = c' \<or> lower_char c = c' \<or> lower_char c' = c"
    and rd: "d = d' \<or> lower_char d = d' \<or> lower_char d' = d"
    and rs: "differ_only_in_case s s'"
    by (auto simp: differ_only_in_case_def list_all2_Cons1)
  from rc have lc: "lower_char c = lower_char c'" by (auto simp: lower_char_idem)
  from rc have c4: "c = CHR 0xC4 \<longleftrightarrow> c' = CHR 0xC4"
    by (metis lower_char_C4)
  from rd have b0: "d = CHR 0xB0 \<longleftrightarrow> d' = CHR 0xB0"
    by (metis lower_char_B0)
  have ds: "differ_only_in_case (d # s) (d' # s')"
    using rd rs by (simp add: differ_only_in_case_def)
  show ?case
  proof (cases "c = CHR 0xC4 \<and> d = CHR 0xB0")
    case True
    with 3(1) rs have "lower s = lower s'" by simp
    with True c4 b0 b show ?thesis by simp
  next
    case False
    with 3(2) ds have e: "lower (d # s) = lower (d' # s')" by simp
    from False c4 b0 have F: "\<not> (c' = CHR 0xC4 \<and> d' = CHR 0xB0)" by simp
    show ?thesis
      unfolding b lower_other [OF False] lower_other [OF F] using lc e by simp
  qed
qed

lemma filter_crop_lower:
  "lower a = lower b \<Longrightarrow> filter_crop t (Some (Str a)) = filter_crop t (Some (Str b))"
  by (simp add: filter_crop_def split: selection.splits)

text \<open>
  C5. For every yield table, measures table and pair of crop strings that differ only in
  letter case, the footprint computation and the measures computation give the same
  result for the two strings.
\<close>

theorem case_insensitive:
  assumes "differ_only_in_case a b"
  shows "estimate df (Some (Str a)) area fertilizer pesticide
           = estimate df (Some (Str b)) area fertilizer pesticide
       \<and> recommendations measures_df (Some (Str a))
           = recommendations measures_df (Some (Str b))"
  using filter_crop_lower [OF differ_only_in_case_lower [OF assms]]
  by (simp add: estimate_def recommendations_def)

theorem case_insensitive_witness:
  "differ_only_in_case ''Wheat'' ''wheat''
   \<and> estimate yield_rice (Some (Str ''Wheat'')) 10 50 20
       = estimate yield_rice (Some (Str ''wheat'')) 10 50 20
   \<and> recommendations measures_wheat (Some (Str ''Wheat''))
       = Inr [Str ''Use drip irrigation'', Str ''Rotate crops'']
   \<and> recommendations measures_wheat (Some (Str ''wheat''))
       = Inr [Str ''Use drip irrigation'', Str ''Rotate crops'']"
proof -
  have h: "differ_only_in_case ''Wheat'' ''wheat''"
    by (simp add: differ_only_in_case_def string_eval)
  have r: "recommendations measures_wheat (Some (Str ''Wheat''))
             = Inr [Str ''Use drip irrigation'', Str ''Rotate crops'']"
    by (simp add: recommendations_def measures_wheat_def table_eval string_eval)
  show ?thesis
    using h r case_insensitive [OF h, of yield_rice 10 50 20 measures_wheat] by simp
qed

subsection \<open>The guard on the area\<close>

text \<open>
  C9. With area 0 the page displays nothing, whatever the tables, the crop, the fertilizer
  and the pesticide are: no footprint and no measure, since the whole analysis is under
  \<^verbatim>\<open>if area > 0\<close>. Neither the footprint nor the measures are computed: the only
  exception the run can end with is that of line 70, the list of crops.
\<close>

theorem no_analysis_at_zero_area:
  "crop_analysis df measures_df selected_crop 0 fertilizer pesticide
     = ([], case crop_list df of Inl e \<Rightarrow> Some e | Inr options \<Rightarrow> None)"
  by (simp add: crop_analysis_def split: sum.splits)

subsection \<open>A crop that no row has\<close>

lemma crop_list_of_filter:
  "filter_crop df sel = Inr cd \<Longrightarrow> \<exists>l. crop_list df = Inr l"
  by (auto simp: filter_crop_def crop_list_def split: selection.splits)

lemma istanbul_not_found:
  "selectable yield_istanbul (Some (Str istanbul))"
  "filter_crop yield_istanbul (Some (Str istanbul)) = Inr (yield_istanbul\<lparr>rows := []\<rparr>)"
  "empty (yield_istanbul\<lparr>rows := []\<rparr>)"
  "crop_list yield_istanbul = Inr [Str istanbul]"
  by (simp_all add: selectable_def yield_istanbul_def istanbul_def table_eval string_eval)

text \<open>
  C3, as the program has it. When the filter of the yield table by the requested crop is
  empty, no footprint is computed and nothing is displayed; the run ends normally, with
  no exception and no notice.
\<close>

theorem unknown_crop_shows_nothing:
  assumes "filter_crop df selected_crop = Inr crop_data" and "empty crop_data"
  shows "estimate df selected_crop area fertilizer pesticide = Inr None
       \<and> crop_analysis df measures_df selected_crop area fertilizer pesticide = ([], None)"
  using assms crop_list_of_filter [OF assms(1)]
  by (auto simp: estimate_def crop_analysis_def)

theorem unknown_crop_shows_nothing_witness:
  "selectable yield_istanbul (Some (Str istanbul))
   \<and> filter_crop yield_istanbul (Some (Str istanbul)) = Inr (yield_istanbul\<lparr>rows := []\<rparr>)
   \<and> empty (yield_istanbul\<lparr>rows := []\<rparr>)
   \<and> estimate yield_istanbul (Some (Str istanbul)) 1 0 0 = Inr None
   \<and> crop_analysis yield_istanbul measures_wheat (Some (Str istanbul)) 1 0 0 = ([], None)"
  using istanbul_not_found
    unknown_crop_shows_nothing [OF istanbul_not_found(2,3), of 1 0 0 measures_wheat]
  by simp

text \<open>
  C3 as stated fails. The table has one crop, spelt with the capital I with a dot above,
  and the select box offers it. Python lower-cases the selection to \<open>i\<close> and a combining
  dot, pandas lower-cases the cell to \<open>i\<close> alone, so no row passes the filter: the
  footprint computation ends with the normal result ``nothing'' and the page with an empty
  display and no exception, where the claim has an error signalled.
\<close>

theorem unknown_crop_no_error:
  "selectable yield_istanbul (Some (Str istanbul))
   \<and> estimate yield_istanbul (Some (Str istanbul)) 10 50 20 = Inr None
   \<and> crop_analysis yield_istanbul measures_wheat (Some (Str istanbul)) 10 50 20 = ([], None)"
  by (simp add: istanbul_not_found estimate_def crop_analysis_def)

subsection \<open>The crop comes from the table\<close>

lemma set_drop_duplicates: "set (drop_duplicates xs) = set xs"
  by (induction xs rule: drop_duplicates.induct) auto


lemma getitem_Series_columns: "getitem t name = Series s \<Longrightarrow> columns t \<noteq> []"
  by (auto simp: getitem_def positions_def split: list.splits)

lemma getitem_Series_length: "getitem t name = Series s \<Longrightarrow> length s = length (rows t)"
  by (auto simp: getitem_def split: list.splits)

lemma filter_zip_nonempty:
  "length cs = length rs \<Longrightarrow> c \<in> set cs \<Longrightarrow> P c \<Longrightarrow> filter (\<lambda>(c, r). P c) (zip cs rs) \<noteq> []"
  by (induction cs rs rule: list_induct2) auto

lemma selected_rows_nonempty:
  assumes "selectable df (Some (Str s))" and "ascii s"
  shows "\<exists>crop_data. filter_crop df (Some (Str s)) = Inr crop_data \<and> \<not> empty crop_data"
proof -
  from assms(1) obtain crop where
    g: "getitem df ''crop'' = Series crop" and m: "Str s \<in> set crop"
    by (auto simp: selectable_def crop_list_def set_drop_duplicates split: selection.splits)
  have n: "\<not> numeric_dtype crop"
  proof
    assume "numeric_dtype crop"
    then have "\<forall>c \<in> set crop. is_num c" by (simp add: numeric_dtype_def list_all_iff)
    with m have "is_num (Str s)" by blast
    then show False by simp
  qed
  let ?kept = "map snd (filter (\<lambda>(c, r). matches (lower s) c) (zip crop (rows df)))"
  have f: "filter_crop df (Some (Str s)) = Inr (df\<lparr>rows := ?kept\<rparr>)"
    using g n by (simp add: filter_crop_def)
  have "matches (lower s) (Str s)"
    using assms(2) by (simp add: ascii_lower)
  with m have "filter (\<lambda>(c, r). matches (lower s) c) (zip crop (rows df)) \<noteq> []"
    using filter_zip_nonempty [of crop "rows df" "Str s" "matches (lower s)"]
      getitem_Series_length [OF g] by simp
  with getitem_Series_columns [OF g] have "\<not> empty (df\<lparr>rows := ?kept\<rparr>)"
    by (simp add: empty_def)
  with f show ?thesis by blast
qed

lemma selected_not_string:
  assumes "selectable df selected_crop" and "\<forall>s. selected_crop \<noteq> Some (Str s)"
  shows "filter_crop df selected_crop = Inl AttributeError"
proof -
  from assms(1) obtain crop where "getitem df ''crop'' = Series crop"
    by (auto simp: selectable_def crop_list_def split: selection.splits)
  with assms(2) show ?thesis
    by (auto simp: filter_crop_def split: option.splits cell.splits)
qed

text \<open>
  C10, as the program has it. The crop is an option of the select box: a distinct value
  of the crop column of the yield table, or None when the column is empty. When it is a
  string of ASCII characters, the filter of the yield table is computed and is not empty,
  and with a positive area the page displays something or raises later. When it is not a
  string (a missing or numeric cell, None), \<^verbatim>\<open>selected_crop.lower()\<close> raises
  AttributeError at line 77 and no filter is computed. In both cases the silent branch of
  an empty filter is not taken.
\<close>

theorem selected_crop_is_found:
  assumes "selectable df selected_crop"
  shows "(\<forall>s. selected_crop = Some (Str s) \<and> ascii s \<longrightarrow>
            (\<exists>crop_data. filter_crop df selected_crop = Inr crop_data \<and> \<not> empty crop_data)
            \<and> (0 < area \<longrightarrow>
                 crop_analysis df measures_df selected_crop area fertilizer pesticide
                   \<noteq> ([], None)))
       \<and> ((\<forall>s. selected_crop \<noteq> Some (Str s)) \<and> 0 < area \<longrightarrow>
            crop_analysis df measures_df selected_crop area fertilizer pesticide
              = ([], Some AttributeError))"
proof (intro conjI allI impI)
  fix s
  assume a: "selected_crop = Some (Str s) \<and> ascii s"
  with assms selected_rows_nonempty [of df s]
  show f: "\<exists>crop_data. filter_crop df selected_crop = Inr crop_data \<and> \<not> empty crop_data"
    by simp
  assume "0 < area"
  with f show "crop_analysis df measures_df selected_crop area fertilizer pesticide \<noteq> ([], None)"
    by (auto simp: crop_analysis_def Let_def split: sum.splits prod.splits)
next
  assume a: "(\<forall>s. selected_crop \<noteq> Some (Str s)) \<and> 0 < area"
  with assms have f: "filter_crop df selected_crop = Inl AttributeError"
    by (simp add: selected_not_string)
  from assms obtain l where "crop_list df = Inr l"
    by (auto simp: selectable_def split: sum.splits)
  with a f show "crop_analysis df measures_df selected_crop area fertilizer pesticide
                   = ([], Some AttributeError)"
    by (simp add: crop_analysis_def)
qed

theorem selected_crop_is_found_witness:
  "selectable yield_rice (Some (Str ''Rice'')) \<and> ascii ''Rice''
   \<and> filter_crop yield_rice (Some (Str ''Rice'')) = Inr yield_rice
   \<and> \<not> empty yield_rice
   \<and> selectable yield_gap (Some (Num NaN))
   \<and> crop_analysis yield_gap measures_wheat (Some (Num NaN)) 1 0 0
       = ([], Some AttributeError)"
proof -
  have s: "selectable yield_rice (Some (Str ''Rice''))"
    by (simp add: selectable_def yield_rice_def table_eval)
  have a: "ascii ''Rice''"
    by (simp add: ascii_def)
  have f: "filter_crop yield_rice (Some (Str ''Rice'')) = Inr yield_rice"
    by (simp add: yield_rice_def table_eval string_eval)
  have g: "selectable yield_gap (Some (Num NaN))"
    by (simp add: selectable_def yield_gap_def table_eval)
  from selected_crop_is_found [OF s, of 1 measures_wheat 0 0] a f
  have "\<not> empty yield_rice" by auto
  moreover from selected_crop_is_found [OF g, of 1 measures_wheat 0 0]
  have "crop_analysis yield_gap measures_wheat (Some (Num NaN)) 1 0 0
          = ([], Some AttributeError)" by simp
  ultimately show ?thesis using s a f g by simp
qed

text \<open>
  C10 as stated fails: the crop spelt with the capital I with a dot above is the one
  option of the select box, and the filter of the yield table for it is empty, since the
  two sides of line 77 are lower-cased differently; the page takes the silent branch.
\<close>

theorem selected_crop_not_found:
  "selectable yield_istanbul (Some (Str istanbul))
   \<and> filter_crop yield_istanbul (Some (Str istanbul)) = Inr (yield_istanbul\<lparr>rows := []\<rparr>)
   \<and> empty (yield_istanbul\<lparr>rows := []\<rparr>)
   \<and> crop_analysis yield_istanbul measures_wheat (Some (Str istanbul)) 1 0 0 = ([], None)"
  by (simp add: istanbul_not_found crop_analysis_def)

subsection \<open>Loading renames the columns and nothing else\<close>

lemma dropWhile_fix: "(xs \<noteq> [] \<Longrightarrow> \<not> P (hd xs)) \<Longrightarrow> dropWhile P xs = xs"
  by (cases xs) auto

lemma hd_rev_dropWhile_rev:
  assumes "rev (dropWhile P (rev t)) \<noteq> []"
  shows "hd (rev (dropWhile P (rev t))) = hd t"
proof -
  obtain k where "dropWhile P (rev t) = drop k (rev t)"
    by (metis dropWhile_eq_drop)
  then have e: "rev (dropWhile P (rev t)) = take (length t - k) t"
    by (simp add: rev_drop)
  with assms have "0 < length t - k" by auto
  with e show ?thesis by simp
qed

lemma strip_idem: "strip (strip s) = strip s"
proof -
  let ?t = "dropWhile isspace s"
  let ?u = "rev (dropWhile isspace (rev ?t))"
  have "?u \<noteq> [] \<Longrightarrow> \<not> isspace (hd ?u)"
  proof -
    assume n: "?u \<noteq> []"
    have "?t = [] \<Longrightarrow> ?u = []" by (simp only: rev.simps dropWhile.simps)
    with n have "?t \<noteq> []" by blast
    then have "\<not> isspace (hd ?t)" by (rule hd_dropWhile)
    with hd_rev_dropWhile_rev [OF n] show ?thesis by simp
  qed
  then have a: "dropWhile isspace ?u = ?u" by (rule dropWhile_fix)
  have b: "dropWhile isspace (rev ?u) = rev ?u"
    by (simp add: dropWhile_idem)
  show ?thesis
    unfolding strip_def a b by simp
qed

text \<open>
  C8. The two tables \<open>load_data\<close> returns have the rows of the two tables read, cell for
  cell, and the column labels of these, each lower-cased and stripped; a returned label
  has no upper-case letter and no white space at either end.
\<close>

theorem load_data_renames_only:
  assumes "load_data yield_csv measures_csv = (df, measures_df)"
  shows "rows df = rows yield_csv \<and> rows measures_df = rows measures_csv
       \<and> columns df = map (\<lambda>c. strip (lower c)) (columns yield_csv)
       \<and> columns measures_df = map (\<lambda>c. strip (lower c)) (columns measures_csv)
       \<and> (\<forall>c \<in> set (columns df) \<union> set (columns measures_df). lower c = c \<and> strip c = c)"
  using assms
  by (auto simp: load_data_def standardize_def lower_strip_lower strip_idem)

theorem load_data_renames_only_witness:
  "load_data yield_raw measures_wheat = (yield_rice, measures_wheat)
   \<and> rows yield_rice = rows yield_raw
   \<and> columns yield_rice = [''crop'', ''carbon_footprint'']"
proof -
  have l: "load_data yield_raw measures_wheat = (yield_rice, measures_wheat)"
    by (simp add: load_data_def standardize_def yield_raw_def yield_rice_def
        measures_wheat_def string_eval)
  show ?thesis
    using l load_data_renames_only [OF l] by (simp add: yield_rice_def)
qed

subsection \<open>The measures, without duplicates\<close>








lemma drop_duplicates_Nil: "drop_duplicates xs = [] \<longleftrightarrow> xs = []"
  by (cases xs) simp_all

lemma page_shows_recommendations:
  assumes "recommendations measures_df selected_crop = Inr ms"
  shows "show_measures measures_df selected_crop
           = (if ms = [] then [Warning_no_measures]
              else Subheader_measures # map Write_measure ms, None)"
proof -
  from assms obtain cm where f: "filter_crop measures_df selected_crop = Inr cm"
    by (auto simp: recommendations_def split: sum.splits)
  show ?thesis
  proof (cases "empty cm")
    case True
    with assms f show ?thesis
      by (simp add: recommendations_def show_measures_def)
  next
    case False
    with assms f have u: "unique_measures cm = Inr ms"
      by (simp add: recommendations_def)
    then obtain col where g: "getitem cm ''necessary_measures'' = Series col"
      and ms: "ms = drop_duplicates col"
      by (auto simp: unique_measures_def split: selection.splits)
    from False getitem_Series_length [OF g] have "col \<noteq> []"
      by (auto simp: empty_def)
    with ms have "ms \<noteq> []" by (simp add: drop_duplicates_Nil)
    with False f u show ?thesis
      by (simp add: show_measures_def)
  qed
qed



subsection \<open>The base factor\<close>

lemma clean_numeric:
  "list_all is_num cf \<Longrightarrow>
   dropna (replace_inf cf) = map (\<lambda>r. Num (Finite r)) (finite_values cf)"
  by (induction cf rule: finite_values.induct) (auto simp: dropna_def replace_inf_def)

lemma clean_keeps_strings:
  "list_all is_num (dropna (dropna (replace_inf cf))) = list_all is_num cf"
  by (induction cf) (auto simp: dropna_def replace_inf_def)

lemma dropna_finite: "dropna (map (\<lambda>r. Num (Finite r)) vs) = map (\<lambda>r. Num (Finite r)) vs"
  by (induction vs) (auto simp: dropna_def)

lemma mean_clean:
  "mean (dropna (replace_inf cf)) =
     (if \<not> list_all is_num cf then Inl TypeError
      else if finite_values cf = [] then Inr NaN
      else Inr (computed_mean (finite_values cf)))"
proof (cases "list_all is_num cf")
  case False
  then show ?thesis
    by (simp add: mean_def clean_keeps_strings)
next
  case True
  have m: "map the_num (map (\<lambda>r. Num (Finite r)) (finite_values cf)) = map Finite (finite_values cf)"
    by simp
  from True show ?thesis
    unfolding mean_def clean_numeric [OF True] dropna_finite Let_def computed_mean_def m
    by (simp add: list_all_iff)
qed

lemma base_factor_Series:
  assumes "getitem crop_data ''carbon_footprint'' = Series cf"
  shows "base_factor crop_data =
           (if \<not> list_all is_num cf then Inl TypeError
            else Inr (if finite_values cf = [] \<or> isna (computed_mean (finite_values cf))
                          \<or> fle (computed_mean (finite_values cf)) (Finite 0)
                      then Finite 1 else computed_mean (finite_values cf)))"
  by (simp add: base_factor_def assms mean_clean isna_def)


lemma fle_zero_or_positive: "v \<noteq> NaN \<Longrightarrow> \<not> fle v (Finite 0) \<Longrightarrow> positive v"
  by (cases v) auto

lemma base_factor_positive:
  assumes "base_factor crop_data = Inr bf"
  shows "positive bf"
proof (cases "getitem crop_data ''carbon_footprint''")
  case Missing
  with assms show ?thesis by (auto simp: base_factor_def)
next
  case (Series cf)
  from assms fle_zero_or_positive [of "computed_mean (finite_values cf)"]
  show ?thesis
    by (auto simp: base_factor_Series [OF Series] isna_def split: if_splits)
next
  case Frame
  with assms show ?thesis by (auto simp: base_factor_def)
qed






text \<open>
  C7 fails on the program. The script removes the infinities it reads, but two finite
  footprints of one crop, \<open>2^1023\<close> each, have a sum beyond the largest double: the mean
  is plus infinity, which is neither NaN nor \<open>\<le> 0\<close>, so the base factor is plus infinity
  and so is the footprint the page displays.
\<close>

theorem base_factor_overflow:
  "filter_crop yield_huge (Some (Str ''Rice'')) = Inr yield_huge
   \<and> base_factor yield_huge = Inr PosInf
   \<and> estimate yield_huge (Some (Str ''Rice'')) 1 0 0 = Inr (Some PosInf)
   \<and> crop_analysis yield_huge measures_wheat (Some (Str ''Rice'')) 1 0 0
       = ([Subheader_analysis ''Rice'', Write_area 1, Write_fertilizer 0, Write_pesticide 0,
           Success_footprint PosInf, Warning_no_measures], None)"
proof -
  have f: "filter_crop yield_huge (Some (Str ''Rice'')) = Inr yield_huge"
    by (simp add: yield_huge_def table_eval string_eval)
  have g: "getitem yield_huge ''carbon_footprint''
             = Series [Num (Finite (2 ^ 1023)), Num (Finite (2 ^ 1023))]"
    by (simp add: yield_huge_def table_eval)
  have b: "base_factor yield_huge = Inr PosInf"
    unfolding base_factor_Series [OF g] using computed_mean_huge by (simp add: isna_def)
  have e: "\<not> empty yield_huge"
    by (simp add: yield_huge_def empty_def)
  have p: "predicted_cf PosInf 1 0 0 = PosInf"
    by (simp add: factor_eval float_eval)
  have l: "crop_list yield_huge = Inr [Str ''Rice'']"
    by (simp add: yield_huge_def table_eval)
  have m: "show_measures measures_wheat (Some (Str ''Rice'')) = ([Warning_no_measures], None)"
    by (simp add: show_measures_def measures_wheat_def table_eval string_eval)
  show ?thesis
    by (simp add: f b e p l m estimate_def crop_analysis_def crop_name_def)
qed

subsection \<open>The footprint\<close>

lemma max_float_nonneg: "0 \<le> max_float"
  by (simp add: max_float_def)

lemma estimate_Some:
  "estimate df sel a f p = Inr (Some v) \<longleftrightarrow>
     (\<exists>cd bf. filter_crop df sel = Inr cd \<and> \<not> empty cd \<and> base_factor cd = Inr bf
              \<and> v = predicted_cf bf a f p)"
  by (auto simp: estimate_def split: sum.splits if_splits)

lemma predicted_cf_in_range:
  assumes "0 \<le> a" "0 \<le> b" "0 \<le> f" "0 \<le> p"
    and "a * b + f * (2 / 1000) + p * (1 / 1000) \<le> max_float"
  shows "predicted_cf (Finite b) a f p = Finite (a * b + f * (2 / 1000) + p * (1 / 1000))"
proof -
  have ab: "0 \<le> a * b" using assms by simp
  have ff: "0 \<le> f * (2 / 1000)" using assms by simp
  have pp: "0 \<le> p * (1 / 1000)" using assms by simp
  have 1: "fmul (Finite a) (Finite b) = Finite (a * b)"
    using ab ff pp assms(5) max_float_nonneg by (simp add: overflow_def)
  have 2: "fmul (Finite f) (Finite (2 / 1000)) = Finite (f * (2 / 1000))"
    using ab ff pp assms(5) max_float_nonneg by (simp add: overflow_def)
  have 3: "fmul (Finite p) (Finite (1 / 1000)) = Finite (p * (1 / 1000))"
    using ab ff pp assms(5) max_float_nonneg by (simp add: overflow_def)
  have 4: "fadd (Finite (a * b)) (Finite (f * (2 / 1000))) = Finite (a * b + f * (2 / 1000))"
    using ab ff pp assms(5) max_float_nonneg by (simp add: overflow_def)
  have 5: "fadd (Finite (a * b + f * (2 / 1000))) (Finite (p * (1 / 1000)))
             = Finite (a * b + f * (2 / 1000) + p * (1 / 1000))"
    using ab ff pp assms(5) max_float_nonneg by (simp add: overflow_def)
  show ?thesis
    unfolding predicted_cf_def fertilizer_factor_def pesticide_factor_def 1 2 3 4 5 ..
qed

lemma page_shows_estimate:
  assumes "estimate df sel a f p = Inr (Some v)" and "0 < a"
  shows "Success_footprint v \<in> set (fst (crop_analysis df measures_df sel a f p))"
proof -
  from assms(1) obtain cd bf where
    c: "filter_crop df sel = Inr cd" "\<not> empty cd" "base_factor cd = Inr bf"
       "v = predicted_cf bf a f p"
    unfolding estimate_Some by blast
  from crop_list_of_filter [OF c(1)] obtain l where "crop_list df = Inr l" ..
  with c assms(2) show ?thesis
    by (simp add: crop_analysis_def Let_def split: prod.splits)
qed

text \<open>
  C1. Whenever a footprint is computed, it is
  \<open>area * base_factor + fertilizer * 0.002 + pesticide * 0.001\<close> in the arithmetic of
  the program, which is this value over the reals as long as it stays in the range of a
  double; with a positive area the page displays it. In particular, when the rows of the
  crop have the single footprint 2.0, the base factor is 2.0 and the inputs 10, 50, 20
  give 20.12.
\<close>

theorem footprint_formula:
  "(\<forall>v. estimate df sel a f p = Inr (Some v) \<longrightarrow>
      (\<exists>crop_data bf. filter_crop df sel = Inr crop_data \<and> base_factor crop_data = Inr bf
         \<and> v = fadd (fadd (fmul (Finite a) bf) (fmul (Finite f) (Finite (2 / 1000))))
                     (fmul (Finite p) (Finite (1 / 1000)))
         \<and> (\<forall>b. bf = Finite b \<and> 0 \<le> a \<and> 0 \<le> f \<and> 0 \<le> p
                 \<and> a * b + f * (2 / 1000) + p * (1 / 1000) \<le> max_float \<longrightarrow>
               v = Finite (a * b + f * (2 / 1000) + p * (1 / 1000)))
         \<and> (0 < a \<longrightarrow>
               Success_footprint v \<in> set (fst (crop_analysis df measures_df sel a f p)))))
   \<and> (\<forall>crop_data. filter_crop df sel = Inr crop_data
         \<and> getitem crop_data ''carbon_footprint'' = Series [Num (Finite 2)] \<longrightarrow>
       base_factor crop_data = Inr (Finite 2)
       \<and> estimate df sel 10 50 20 = Inr (Some (Finite (2012 / 100))))"
proof (intro conjI allI impI)
  fix v
  assume e: "estimate df sel a f p = Inr (Some v)"
  then obtain cd bf where
    c: "filter_crop df sel = Inr cd" "\<not> empty cd" "base_factor cd = Inr bf"
       "v = predicted_cf bf a f p"
    unfolding estimate_Some by blast
  have pos: "positive bf" using c(3) by (rule base_factor_positive)
  have r: "v = Finite (a * b + f * (2 / 1000) + p * (1 / 1000))"
    if "bf = Finite b \<and> 0 \<le> a \<and> 0 \<le> f \<and> 0 \<le> p
        \<and> a * b + f * (2 / 1000) + p * (1 / 1000) \<le> max_float" for b
    using that pos c(4) by (simp add: predicted_cf_in_range)
  have s: "0 < a \<Longrightarrow> Success_footprint v \<in> set (fst (crop_analysis df measures_df sel a f p))"
    using e by (rule page_shows_estimate)
  from c r s
  show "\<exists>crop_data bf. filter_crop df sel = Inr crop_data \<and> base_factor crop_data = Inr bf
         \<and> v = fadd (fadd (fmul (Finite a) bf) (fmul (Finite f) (Finite (2 / 1000))))
                     (fmul (Finite p) (Finite (1 / 1000)))
         \<and> (\<forall>b. bf = Finite b \<and> 0 \<le> a \<and> 0 \<le> f \<and> 0 \<le> p
                 \<and> a * b + f * (2 / 1000) + p * (1 / 1000) \<le> max_float \<longrightarrow>
               v = Finite (a * b + f * (2 / 1000) + p * (1 / 1000)))
         \<and> (0 < a \<longrightarrow>
               Success_footprint v \<in> set (fst (crop_analysis df measures_df sel a f p)))"
    unfolding predicted_cf_def fertilizer_factor_def pesticide_factor_def by blast
next
  fix crop_data
  assume a: "filter_crop df sel = Inr crop_data
         \<and> getitem crop_data ''carbon_footprint'' = Series [Num (Finite 2)]"
  then have b: "base_factor crop_data = Inr (Finite 2)"
    by (simp add: base_factor_Series computed_mean_2 isna_def)
  then show "base_factor crop_data = Inr (Finite 2)" .
  from a have ne: "\<not> empty crop_data"
    by (auto simp: empty_def getitem_def positions_def split: list.splits)
  have "predicted_cf (Finite 2) 10 50 20 = Finite (10 * 2 + 50 * (2 / 1000) + 20 * (1 / 1000))"
    by (rule predicted_cf_in_range) (simp_all add: max_float_def)
  then have "predicted_cf (Finite 2) 10 50 20 = Finite (2012 / 100)" by simp
  with a b ne show "estimate df sel 10 50 20 = Inr (Some (Finite (2012 / 100)))"
    by (simp add: estimate_def)
qed

theorem footprint_formula_witness:
  "estimate yield_rice (Some (Str ''Rice'')) 10 50 20 = Inr (Some (Finite (2012 / 100)))
   \<and> filter_crop yield_rice (Some (Str ''Rice'')) = Inr yield_rice
   \<and> getitem yield_rice ''carbon_footprint'' = Series [Num (Finite 2)]
   \<and> base_factor yield_rice = Inr (Finite 2)
   \<and> Success_footprint (Finite (2012 / 100))
        \<in> set (fst (crop_analysis yield_rice measures_wheat (Some (Str ''Rice'')) 10 50 20))"
proof -
  have f: "filter_crop yield_rice (Some (Str ''Rice'')) = Inr yield_rice"
    by (simp add: yield_rice_def table_eval string_eval)
  have g: "getitem yield_rice ''carbon_footprint'' = Series [Num (Finite 2)]"
    by (simp add: yield_rice_def table_eval)
  note t = footprint_formula [of yield_rice "Some (Str ''Rice'')" 10 50 20 measures_wheat]
  from t f g have b: "base_factor yield_rice = Inr (Finite 2)"
    and e: "estimate yield_rice (Some (Str ''Rice'')) 10 50 20 = Inr (Some (Finite (2012 / 100)))"
    by blast+
  from t e have "Success_footprint (Finite (2012 / 100))
        \<in> set (fst (crop_analysis yield_rice measures_wheat (Some (Str ''Rice'')) 10 50 20))"
    by auto
  with e f g b show ?thesis by blast
qed

subsection \<open>Monotonicity\<close>

lemma overflow_mono: "x \<le> y \<Longrightarrow> fle (overflow x) (overflow y)"
  by (auto simp: overflow_def)

lemma nonneg_overflow: "0 \<le> x \<Longrightarrow> nonneg (overflow x)"
  using max_float_nonneg by (auto simp: overflow_def nonneg_def)

lemma area_term_mono:
  assumes "positive bf" "0 < a" "a \<le> a'"
  shows "fle (fmul (Finite a) bf) (fmul (Finite a') bf) \<and> nonneg (fmul (Finite a) bf)"
proof (cases bf)
  case (Finite b)
  with assms have "a * b \<le> a' * b" "0 \<le> a * b" by simp_all
  with Finite show ?thesis by (simp add: overflow_mono nonneg_overflow)
next
  case PosInf
  with assms show ?thesis by (simp add: inf_times_def nonneg_def)
qed (use assms in auto)

lemma input_term_mono:
  assumes "0 \<le> k" "0 \<le> x" "x \<le> x'"
  shows "fle (fmul (Finite x) (Finite k)) (fmul (Finite x') (Finite k))
       \<and> nonneg (fmul (Finite x) (Finite k))"
proof -
  from assms have "x * k \<le> x' * k" "0 \<le> x * k" by (simp_all add: mult_right_mono)
  then show ?thesis by (simp add: overflow_mono nonneg_overflow)
qed

lemma fadd_mono:
  assumes "nonneg x" "nonneg y" "fle x x'" "fle y y'"
  shows "fle (fadd x y) (fadd x' y') \<and> nonneg (fadd x y)"
proof -
  have n: "nonneg (fadd x y)"
    using assms(1,2) max_float_nonneg
    by (cases x; cases y) (auto simp: nonneg_def overflow_def)
  have "fle (fadd x y) (fadd x' y')"
    using assms max_float_nonneg
    by (cases x; cases y; cases x'; cases y') (auto simp: nonneg_def overflow_def)
  with n show ?thesis by simp
qed

lemma predicted_cf_mono:
  assumes "positive bf" "0 < a" "a \<le> a'" "0 \<le> f" "f \<le> f'" "0 \<le> p" "p \<le> p'"
  shows "fle (predicted_cf bf a f p) (predicted_cf bf a' f' p')"
proof -
  note A = area_term_mono [OF assms(1-3)]
  have F: "fle (fmul (Finite f) fertilizer_factor) (fmul (Finite f') fertilizer_factor)
         \<and> nonneg (fmul (Finite f) fertilizer_factor)"
    unfolding fertilizer_factor_def using assms(4,5) by (intro input_term_mono) simp_all
  have P: "fle (fmul (Finite p) pesticide_factor) (fmul (Finite p') pesticide_factor)
         \<and> nonneg (fmul (Finite p) pesticide_factor)"
    unfolding pesticide_factor_def using assms(6,7) by (intro input_term_mono) simp_all
  from A F have S: "fle (fadd (fmul (Finite a) bf) (fmul (Finite f) fertilizer_factor))
                        (fadd (fmul (Finite a') bf) (fmul (Finite f') fertilizer_factor))
                  \<and> nonneg (fadd (fmul (Finite a) bf) (fmul (Finite f) fertilizer_factor))"
    by (intro fadd_mono) simp_all
  from S P show ?thesis
    unfolding predicted_cf_def using fadd_mono by blast
qed

lemma estimate_defined:
  assumes "estimate df sel a f p = Inr (Some v)"
  shows "\<exists>v'. estimate df sel a' f' p' = Inr (Some v')"
  using assms unfolding estimate_Some by blast

lemma estimate_mono:
  assumes "estimate df sel a f p = Inr (Some v)" "estimate df sel a' f' p' = Inr (Some v')"
    and "0 < a" "a \<le> a'" "0 \<le> f" "f \<le> f'" "0 \<le> p" "p \<le> p'"
  shows "fle v v'"
proof -
  from assms(1) obtain cd bf where
    c: "filter_crop df sel = Inr cd" "base_factor cd = Inr bf" "v = predicted_cf bf a f p"
    unfolding estimate_Some by blast
  from assms(2) c(1,2) have v': "v' = predicted_cf bf a' f' p'"
    unfolding estimate_Some by auto
  have "positive bf" using c(2) by (rule base_factor_positive)
  then show ?thesis
    unfolding c(3) v' using assms(3-8) by (rule predicted_cf_mono)
qed

text \<open>
  C6. For a fixed yield table and crop, and inputs as the page accepts them (a positive
  area, fertilizer and pesticide not negative), the footprint does not decrease when one
  of the area, the fertilizer and the pesticide increases and the other two stay as they
  are. The order is Python's \<^verbatim>\<open><=\<close> on floats.
\<close>

theorem estimate_monotone:
  assumes "0 < area" "0 \<le> fertilizer" "0 \<le> pesticide"
    and "estimate df sel area fertilizer pesticide = Inr (Some v)"
  shows "(\<forall>area'. area \<le> area' \<longrightarrow>
            (\<exists>v'. estimate df sel area' fertilizer pesticide = Inr (Some v') \<and> fle v v'))
       \<and> (\<forall>fertilizer'. fertilizer \<le> fertilizer' \<longrightarrow>
            (\<exists>v'. estimate df sel area fertilizer' pesticide = Inr (Some v') \<and> fle v v'))
       \<and> (\<forall>pesticide'. pesticide \<le> pesticide' \<longrightarrow>
            (\<exists>v'. estimate df sel area fertilizer pesticide' = Inr (Some v') \<and> fle v v'))"
proof -
  have r: "\<exists>v'. estimate df sel a' f' p' = Inr (Some v') \<and> fle v v'"
    if "area \<le> a'" "fertilizer \<le> f'" "pesticide \<le> p'" for a' f' p'
  proof -
    from estimate_defined [OF assms(4), of a' f' p'] obtain v' where
      e: "estimate df sel a' f' p' = Inr (Some v')" ..
    from estimate_mono [OF assms(4) e assms(1) that(1) assms(2) that(2) assms(3) that(3)] e
    show ?thesis by blast
  qed
  show ?thesis
    by (intro conjI allI impI r) simp_all
qed

theorem estimate_monotone_witness:
  "(0::real) < 10 \<and> (0::real) \<le> 50 \<and> (0::real) \<le> 20
   \<and> estimate yield_rice (Some (Str ''Rice'')) 10 50 20 = Inr (Some (Finite (2012 / 100)))
   \<and> estimate yield_rice (Some (Str ''Rice'')) 11 50 20 = Inr (Some (Finite (2212 / 100)))
   \<and> fle (Finite (2012 / 100)) (Finite (2212 / 100))"
proof -
  have e: "estimate yield_rice (Some (Str ''Rice'')) 10 50 20 = Inr (Some (Finite (2012 / 100)))"
    by (simp add: estimate_def yield_rice_def table_eval string_eval factor_eval float_eval
        double_eval)
  have e': "estimate yield_rice (Some (Str ''Rice'')) 11 50 20 = Inr (Some (Finite (2212 / 100)))"
    by (simp add: estimate_def yield_rice_def table_eval string_eval factor_eval float_eval
        double_eval)
  have "fle (Finite (2012 / 100)) (Finite (2212 / 100))"
    using estimate_monotone [of 10 50 20 yield_rice "Some (Str ''Rice'')", OF _ _ _ e] e'
    by fastforce
  with e e' show ?thesis by simp
qed

end
